theory Spec2Isabelle
  imports Complex_Main "HOL-Library.Word"
begin

section \<open>Byte strings\<close>

text \<open>
  The program works on viem's \<open>Hex\<close> values: strings \<open>0x...\<close> that stand for byte
  sequences. A \<open>Hex\<close> value is modelled by the byte sequence it denotes; an
  \<open>Address\<close> is a \<open>Hex\<close> value that is meant to hold 20 bytes. The \<open>bigint\<close> fields of
  the program hold quantities that the data model declares unsigned; they are natural
  numbers here, and the bound \<open>2^256\<close> is checked where a value is encoded.
\<close>

type_synonym byte = "8 word"
type_synonym Hex = "byte list"
type_synonym Address = Hex

text \<open>
  Modelled from the spec: viem's \<open>numberToHex\<close>, \<open>hexToNumber\<close> and \<open>padHex\<close> are not part
  of the source file. \<open>numberToHex n v\<close> is the big-endian representation of \<open>v\<close> in
  \<open>n\<close> bytes: the last \<open>n\<close> base-256 digits of \<open>v\<close>, most significant first.
\<close>

fun numberToHex :: "nat \<Rightarrow> nat \<Rightarrow> Hex" where
  "numberToHex 0 v = []"
| "numberToHex (Suc n) v = numberToHex n (v div 256) @ [of_nat (v mod 256)]"

text \<open>
  Modelled from the spec: the unsigned integer that a byte string denotes, read
  big-endian; zero-padding on the left and on the right to \<open>n\<close> bytes; the next multiple
  of 32.
\<close>

definition hexToNumber :: "Hex \<Rightarrow> nat" where
  "hexToNumber bs = foldl (\<lambda>acc b. acc * 256 + unat b) 0 bs"

definition padLeft :: "nat \<Rightarrow> Hex \<Rightarrow> Hex" where
  "padLeft n bs = replicate (n - length bs) 0 @ bs"

definition padRight :: "nat \<Rightarrow> Hex \<Rightarrow> Hex" where
  "padRight n bs = bs @ replicate (n - length bs) 0"

definition ceil32 :: "nat \<Rightarrow> nat" where
  "ceil32 n = ((n + 31) div 32) * 32"

section \<open>The ABI encoder\<close>

text \<open>
  Modelled from the spec: \<open>encodeAbiParameters\<close> and \<open>encodeFunctionData\<close> are imported
  from the viem package and are not part of the source file. Every definition of this
  section follows the operations of the spec's ABI Encoder component (\<open>encode_static\<close>,
  \<open>encode_dynamic_bytes\<close>, \<open>encode_tuple\<close>, \<open>encode_array_of_tuples\<close>,
  \<open>encode_function_call\<close>) over the type vocabulary address, uint256, bytes32, bytes,
  tuple and tuple[], and the error taxonomy of the spec.
\<close>

datatype EncodingError = ValueOutOfRange | LayoutMismatch

datatype abi_type =
    Address_t
  | Uint256_t
  | Bytes32_t
  | Bytes_t
  | Tuple_t "abi_type list"
  | TupleArray_t "abi_type list"

text \<open>
  Modelled from the spec: the values handed to the encoder. They are untyped, as in the
  source: hex strings, bigints, tuples (objects) and arrays. The declared type decides
  how a value is read.
\<close>

datatype abi_value =
    HexV Hex
  | BigIntV nat
  | TupleV "abi_value list"
  | ArrayV "abi_value list"

text \<open>
  Modelled from the spec: \<open>encode_static(value, type)\<close>, one 32-byte word. An address is left-padded with zero
  bytes, a uint256 is written big-endian, a bytes32 value is its 32 bytes. A uint256
  above \<open>2^256 - 1\<close> and an address wider than 20 bytes are out of range; a value of
  another shape than the declared type is a layout mismatch.
\<close>

fun encode_static :: "abi_type \<Rightarrow> abi_value \<Rightarrow> EncodingError + Hex" where
  "encode_static Address_t (HexV a) =
     (if length a > 20 then Inl ValueOutOfRange else Inr (padLeft 32 a))"
| "encode_static Uint256_t (BigIntV v) =
     (if v > 2 ^ 256 - 1 then Inl ValueOutOfRange else Inr (numberToHex 32 v))"
| "encode_static Bytes32_t (HexV b) =
     (if length b \<noteq> 32 then Inl LayoutMismatch else Inr b)"
| "encode_static _ _ = Inl LayoutMismatch"

text \<open>
  Modelled from the spec: \<open>encode_dynamic_bytes(data)\<close>, the 32-byte big-endian length word, then the data
  right-padded with zero bytes to the next multiple of 32 bytes.
\<close>

definition encode_dynamic_bytes :: "Hex \<Rightarrow> Hex" where
  "encode_dynamic_bytes data =
     numberToHex 32 (length data) @ padRight (ceil32 (length data)) data"

text \<open>
  Modelled from the spec: the head/tail discipline of \<open>encode_tuple\<close>. A prepared field
  is the pair of whether it is dynamic, and its encoding. The head/tail layout of a
  sequence of prepared fields: the head region holds a static field's encoding or a
  dynamic field's offset word, the tail region holds the dynamic payloads in field
  order. Offsets count bytes from the start of the head region; the first one is the
  size of the head region.
\<close>

type_synonym PreparedParam = "bool \<times> Hex"

definition staticSize :: "PreparedParam list \<Rightarrow> nat" where
  "staticSize ps = sum_list (map (\<lambda>p. if fst p then 32 else length (snd p)) ps)"

fun headRegion :: "nat \<Rightarrow> PreparedParam list \<Rightarrow> Hex" where
  "headRegion off [] = []"
| "headRegion off (p # ps) =
     (if fst p then numberToHex 32 off @ headRegion (off + length (snd p)) ps
      else snd p @ headRegion off ps)"

definition tailRegion :: "PreparedParam list \<Rightarrow> Hex" where
  "tailRegion ps = concat (map snd (filter fst ps))"

definition encodeParams :: "PreparedParam list \<Rightarrow> Hex" where
  "encodeParams ps = headRegion (staticSize ps) ps @ tailRegion ps"

text \<open>
  Modelled from the spec: the recursive encoder. \<open>prepareParam\<close> encodes one value of a declared type,
  \<open>prepareParams\<close> the fields of a tuple against its layout, \<open>prepareItems\<close> the items
  of an array against the tuple layout of its elements. The first failing field, in
  declaration order, decides the error. A tuple is dynamic when one of its fields is; an
  array of tuples is dynamic, and is the count word followed by the head/tail layout of
  its items.
\<close>

fun prepareParam :: "abi_type \<Rightarrow> abi_value \<Rightarrow> EncodingError + PreparedParam"
  and prepareParams :: "abi_type list \<Rightarrow> abi_value list \<Rightarrow> EncodingError + PreparedParam list"
  and prepareItems :: "abi_type list \<Rightarrow> abi_value list \<Rightarrow> EncodingError + PreparedParam list"
where
  "prepareParam (Tuple_t ts) (TupleV vs) =
     (if length ts \<noteq> length vs then Inl LayoutMismatch
      else case prepareParams ts vs of
        Inl e \<Rightarrow> Inl e
      | Inr ps \<Rightarrow> Inr (list_ex fst ps, encodeParams ps))"
| "prepareParam (Tuple_t ts) (HexV x) = Inl LayoutMismatch"
| "prepareParam (Tuple_t ts) (BigIntV x) = Inl LayoutMismatch"
| "prepareParam (Tuple_t ts) (ArrayV x) = Inl LayoutMismatch"
| "prepareParam (TupleArray_t ts) (ArrayV vs) =
     (case prepareItems ts vs of
        Inl e \<Rightarrow> Inl e
      | Inr ps \<Rightarrow> Inr (True, numberToHex 32 (length vs) @ encodeParams ps))"
| "prepareParam (TupleArray_t ts) (HexV x) = Inl LayoutMismatch"
| "prepareParam (TupleArray_t ts) (BigIntV x) = Inl LayoutMismatch"
| "prepareParam (TupleArray_t ts) (TupleV x) = Inl LayoutMismatch"
| "prepareParam Bytes_t (HexV data) = Inr (True, encode_dynamic_bytes data)"
| "prepareParam Bytes_t (BigIntV x) = Inl LayoutMismatch"
| "prepareParam Bytes_t (TupleV x) = Inl LayoutMismatch"
| "prepareParam Bytes_t (ArrayV x) = Inl LayoutMismatch"
| "prepareParam Address_t v =
     (case encode_static Address_t v of Inl e \<Rightarrow> Inl e | Inr w \<Rightarrow> Inr (False, w))"
| "prepareParam Uint256_t v =
     (case encode_static Uint256_t v of Inl e \<Rightarrow> Inl e | Inr w \<Rightarrow> Inr (False, w))"
| "prepareParam Bytes32_t v =
     (case encode_static Bytes32_t v of Inl e \<Rightarrow> Inl e | Inr w \<Rightarrow> Inr (False, w))"
| "prepareParams [] vs = (case vs of [] \<Rightarrow> Inr [] | _ \<Rightarrow> Inl LayoutMismatch)"
| "prepareParams (t # ts) [] = Inl LayoutMismatch"
| "prepareParams (t # ts) (v # vs) =
     (case prepareParam t v of
        Inl e \<Rightarrow> Inl e
      | Inr p \<Rightarrow> (case prepareParams ts vs of Inl e \<Rightarrow> Inl e | Inr ps \<Rightarrow> Inr (p # ps)))"
| "prepareItems ts [] = Inr []"
| "prepareItems ts (v # vs) =
     (case prepareParam (Tuple_t ts) v of
        Inl e \<Rightarrow> Inl e
      | Inr p \<Rightarrow> (case prepareItems ts vs of Inl e \<Rightarrow> Inl e | Inr ps \<Rightarrow> Inr (p # ps)))"


text \<open>
  Modelled from the spec: \<open>encode_tuple(fields, layout)\<close> and
  \<open>encode_array_of_tuples(items, tuple_layout)\<close>.
\<close>

definition encode_tuple :: "abi_type list \<Rightarrow> abi_value list \<Rightarrow> EncodingError + Hex" where
  "encode_tuple layout fields = map_sum id snd (prepareParam (Tuple_t layout) (TupleV fields))"

definition encode_array_of_tuples :: "abi_type list \<Rightarrow> abi_value list \<Rightarrow> EncodingError + Hex" where
  "encode_array_of_tuples tuple_layout items =
     map_sum id snd (prepareParam (TupleArray_t tuple_layout) (ArrayV items))"

text \<open>
  Modelled from the spec: \<open>encodeAbiParameters(params, values)\<close>, the values against
  the parameter types, as one implicit tuple.
\<close>

definition encodeAbiParameters :: "abi_type list \<Rightarrow> abi_value list \<Rightarrow> EncodingError + Hex" where
  "encodeAbiParameters params vals = encode_tuple params vals"

text \<open>
  Modelled from the spec: the canonical signature string of a function, its name and
  the parenthesised, comma-separated parameter types, a tuple written as the
  parenthesised list of its component types. The string is hashed as its bytes.
\<close>

fun formatAbiParam :: "abi_type \<Rightarrow> string"
  and formatAbiParams :: "abi_type list \<Rightarrow> string"
where
  "formatAbiParam Address_t = ''address''"
| "formatAbiParam Uint256_t = ''uint256''"
| "formatAbiParam Bytes32_t = ''bytes32''"
| "formatAbiParam Bytes_t = ''bytes''"
| "formatAbiParam (Tuple_t ts) = ''('' @ formatAbiParams ts @ '')''"
| "formatAbiParam (TupleArray_t ts) = ''('' @ formatAbiParams ts @ '')[]''"
| "formatAbiParams [] = []"
| "formatAbiParams [t] = formatAbiParam t"
| "formatAbiParams (t # t' # ts) = formatAbiParam t @ '','' @ formatAbiParams (t' # ts)"

record AbiFunction =
  abi_name :: string
  abi_inputs :: "abi_type list"

definition formatAbiItem :: "AbiFunction \<Rightarrow> string" where
  "formatAbiItem item = abi_name item @ ''('' @ formatAbiParams (abi_inputs item) @ '')''"

definition stringToBytes :: "string \<Rightarrow> Hex" where
  "stringToBytes s = map (\<lambda>c. of_nat (of_char c)) s"

text \<open>
  Modelled from the spec: the selector of a function, the first four bytes of the hash
  of its canonical signature string. The hash primitive \<open>keccak256\<close> is supplied by the
  environment; every function that hashes takes it as its first argument.
\<close>

definition toFunctionSelector :: "(Hex \<Rightarrow> Hex) \<Rightarrow> AbiFunction \<Rightarrow> Hex" where
  "toFunctionSelector keccak256 item = take 4 (keccak256 (stringToBytes (formatAbiItem item)))"

text \<open>
  Modelled from the spec: \<open>encode_function_call(selector_bytes, ordered_args)\<close>, the
  selector, then the arguments encoded as one implicit tuple.
\<close>

definition encode_function_call ::
  "Hex \<Rightarrow> abi_type list \<Rightarrow> abi_value list \<Rightarrow> EncodingError + Hex" where
  "encode_function_call selector_bytes layout ordered_args =
     map_sum id (\<lambda>data. selector_bytes @ data) (encodeAbiParameters layout ordered_args)"

text \<open>
  Modelled from the spec: \<open>encodeFunctionData({abi, args})\<close> without a function name.
  The ABI has to consist of the one function that is called; any other ABI is a
  malformed layout.
\<close>

definition encodeFunctionData ::
  "(Hex \<Rightarrow> Hex) \<Rightarrow> AbiFunction list \<Rightarrow> abi_value list \<Rightarrow> EncodingError + Hex" where
  "encodeFunctionData keccak256 abi_items args =
     (case abi_items of
        [item] \<Rightarrow>
          encode_function_call (toFunctionSelector keccak256 item) (abi_inputs item) args
      | _ \<Rightarrow> Inl LayoutMismatch)"

section \<open>The program: createHandleOpsCalldata.ts\<close>

record UserOperation =
  sender :: Address
  nonce :: nat
  initCode :: Hex
  callData :: Hex
  callGasLimit :: nat
  verificationGasLimit :: nat
  preVerificationGas :: nat
  maxFeePerGas :: nat
  maxPriorityFeePerGas :: nat
  paymasterAndData :: Hex
  signature :: Hex

text \<open>
  The data model's invariant of an operation: the sender is a 20-byte address and the
  integer fields fit in 256 bits.
\<close>

definition valid_UserOperation :: "UserOperation \<Rightarrow> bool" where
  "valid_UserOperation userOperation \<longleftrightarrow>
     length (sender userOperation) = 20 \<and>
     nonce userOperation < 2 ^ 256 \<and>
     callGasLimit userOperation < 2 ^ 256 \<and>
     verificationGasLimit userOperation < 2 ^ 256 \<and>
     preVerificationGas userOperation < 2 ^ 256 \<and>
     maxFeePerGas userOperation < 2 ^ 256 \<and>
     maxPriorityFeePerGas userOperation < 2 ^ 256"

text \<open>
  Modelled from the spec: viem's \<open>keccak256\<close> is the external hash primitive. It is a
  parameter of the functions below; its contract is that a digest has 32 bytes.
\<close>

definition digest32 :: "(Hex \<Rightarrow> Hex) \<Rightarrow> bool" where
  "digest32 keccak256 \<longleftrightarrow> (\<forall>bs. length (keccak256 bs) = 32)"

text \<open>
  \<open>packUserOpV06\<close> (lines 22 to 53 of the source): the three dynamic fields are hashed,
  and ten values are encoded as static parameters. The signature is not read.
\<close>

definition packUserOpV06 :: "(Hex \<Rightarrow> Hex) \<Rightarrow> UserOperation \<Rightarrow> EncodingError + Hex" where
  "packUserOpV06 keccak256 userOperation =
     (let hashedInitCode = keccak256 (initCode userOperation);
          hashedCallData = keccak256 (callData userOperation);
          hashedPaymasterAndData = keccak256 (paymasterAndData userOperation)
      in encodeAbiParameters
           [Address_t, Uint256_t, Bytes32_t, Bytes32_t, Uint256_t, Uint256_t, Uint256_t,
            Uint256_t, Uint256_t, Bytes32_t]
           [HexV (sender userOperation),
            BigIntV (nonce userOperation),
            HexV hashedInitCode,
            HexV hashedCallData,
            BigIntV (callGasLimit userOperation),
            BigIntV (verificationGasLimit userOperation),
            BigIntV (preVerificationGas userOperation),
            BigIntV (maxFeePerGas userOperation),
            BigIntV (maxPriorityFeePerGas userOperation),
            HexV hashedPaymasterAndData])"

text \<open>
  The packed tuple as the spec lays it out: ten 32-byte words in declaration order, each
  dynamic field replaced by its hash, the signature left out.
\<close>

definition packedWords :: "(Hex \<Rightarrow> Hex) \<Rightarrow> UserOperation \<Rightarrow> Hex" where
  "packedWords keccak256 userOperation =
     padLeft 32 (sender userOperation) @
     numberToHex 32 (nonce userOperation) @
     keccak256 (initCode userOperation) @
     keccak256 (callData userOperation) @
     numberToHex 32 (callGasLimit userOperation) @
     numberToHex 32 (verificationGasLimit userOperation) @
     numberToHex 32 (preVerificationGas userOperation) @
     numberToHex 32 (maxFeePerGas userOperation) @
     numberToHex 32 (maxPriorityFeePerGas userOperation) @
     keccak256 (paymasterAndData userOperation)"

text \<open>
  \<open>getUserOperationHashV06\<close> (lines 55 to 69 of the source): the hash of the packed
  tuple, the entry point and the chain id are encoded as static parameters, and the
  result is hashed. The chain id \<open>kakarotChain.id\<close> comes from the module
  \<open>./constants\<close>; it is the second argument here. An error of the encoder ends the
  computation, as the exception does in the source.
\<close>

definition getUserOperationHashV06 ::
  "(Hex \<Rightarrow> Hex) \<Rightarrow> nat \<Rightarrow> UserOperation \<Rightarrow> Address \<Rightarrow> EncodingError + Hex" where
  "getUserOperationHashV06 keccak256 kakarotChain_id userOperation entryPoint =
     (case packUserOpV06 keccak256 userOperation of
        Inl e \<Rightarrow> Inl e
      | Inr packed \<Rightarrow>
          (case encodeAbiParameters [Bytes32_t, Address_t, Uint256_t]
                  [HexV (keccak256 packed), HexV entryPoint, BigIntV kakarotChain_id] of
             Inl e \<Rightarrow> Inl e
           | Inr encoded \<Rightarrow> Inr (keccak256 encoded)))"

text \<open>The ABI of the entry point's \<open>handleOps(UserOperation[] ops, address beneficiary)\<close>.\<close>

definition UserOperation_components :: "abi_type list" where
  "UserOperation_components =
     [Address_t, Uint256_t, Bytes_t, Bytes_t, Uint256_t, Uint256_t, Uint256_t, Uint256_t,
      Uint256_t, Bytes_t, Bytes_t]"

definition abi :: "AbiFunction list" where
  "abi = [\<lparr>abi_name = ''handleOps'',
           abi_inputs = [TupleArray_t UserOperation_components, Address_t]\<rparr>]"

text \<open>An operation as the argument value of \<open>handleOps\<close>: its eleven fields in order.\<close>

definition UserOperation_value :: "UserOperation \<Rightarrow> abi_value" where
  "UserOperation_value userOperation =
     TupleV
       [HexV (sender userOperation),
        BigIntV (nonce userOperation),
        HexV (initCode userOperation),
        HexV (callData userOperation),
        BigIntV (callGasLimit userOperation),
        BigIntV (verificationGasLimit userOperation),
        BigIntV (preVerificationGas userOperation),
        BigIntV (maxFeePerGas userOperation),
        BigIntV (maxPriorityFeePerGas userOperation),
        HexV (paymasterAndData userOperation),
        HexV (signature userOperation)]"

text \<open>
  The last step of \<open>main\<close>: the call data of \<open>handleOps\<close> for a list of operations and a
  beneficiary.
\<close>

definition handleOpsCalldata ::
  "(Hex \<Rightarrow> Hex) \<Rightarrow> UserOperation list \<Rightarrow> Address \<Rightarrow> EncodingError + Hex" where
  "handleOpsCalldata keccak256 ops beneficiary =
     encodeFunctionData keccak256 abi [ArrayV (map UserOperation_value ops), HexV beneficiary]"

section \<open>Concrete inputs\<close>

text \<open>
  An operation like the one that \<open>main\<close> builds (its gas and fee values, a four-byte \<open>initCode\<close>),
  here with a one-byte \<open>callData\<close> and a 65-byte signature, the beneficiary address that
  \<open>main\<close> passes to \<open>handleOps\<close>, and an entry-point address.
\<close>

definition sample_userOperation :: UserOperation where
  "sample_userOperation =
     \<lparr>sender = replicate 19 0 @ [1],
      nonce = 0,
      initCode = [95, 191, 185, 207],
      callData = [1],
      callGasLimit = 350000,
      verificationGasLimit = 550000,
      preVerificationGas = 250000,
      maxFeePerGas = 1000000000,
      maxPriorityFeePerGas = 150000000,
      paymasterAndData = [],
      signature = replicate 65 7\<rparr>"

definition sample_beneficiary :: Address where
  "sample_beneficiary =
     [67, 55, 4, 196, 15, 128, 203, 255, 2, 232, 111, 211, 107, 200, 186, 197, 227, 30, 176, 193]"

definition sample_entryPoint :: Address where
  "sample_entryPoint = replicate 19 0 @ [94]"

text \<open>
  A stand-in for the hash primitive at concrete inputs. It meets the size contract of the
  primitive and nothing else: the digest is 32 copies of the low byte of the input's
  length, so byte strings of equal length collide.
\<close>

definition sample_keccak256 :: "Hex \<Rightarrow> Hex" where
  "sample_keccak256 bs = replicate 32 (of_nat (length bs))"


section \<open>Properties of the byte-string functions\<close>

lemma length_numberToHex [simp]: "length (numberToHex n v) = n"
  by (induction n arbitrary: v) simp_all

lemma hexToNumber_snoc: "hexToNumber (bs @ [b]) = hexToNumber bs * 256 + unat b"
  by (simp add: hexToNumber_def)

lemma hexToNumber_numberToHex: "hexToNumber (numberToHex n v) = v mod 256 ^ n"
proof (induction n arbitrary: v)
  case 0
  show ?case by (simp add: hexToNumber_def)
next
  case (Suc n)
  have b: "unat (of_nat (v mod 256) :: byte) = v mod 256"
    by (simp add: unat_of_nat)
  have "hexToNumber (numberToHex (Suc n) v) = (v div 256) mod 256 ^ n * 256 + v mod 256"
    by (simp add: hexToNumber_snoc Suc.IH b)
  also have "\<dots> = v mod 256 ^ Suc n"
    by (simp add: mod_mult2_eq)
  finally show ?case .
qed


lemma length_padLeft: "length bs \<le> n \<Longrightarrow> length (padLeft n bs) = n"
  by (simp add: padLeft_def)

lemma ceil32_ge: "n \<le> ceil32 n"
  by (simp add: ceil32_def)

lemma ceil32_ceiling: "ceil32 n = 32 * nat \<lceil>real n / 32\<rceil>"
proof -
  have "\<lceil>real n / 32\<rceil> = - (- int n div 32)"
    using ceiling_divide_eq_div [of "int n" 32] by simp
  also have "\<dots> = int ((n + 31) div 32)"
    by (simp add: zdiv_int)
  finally have "nat \<lceil>real n / 32\<rceil> = (n + 31) div 32"
    by simp
  then show ?thesis by (simp add: ceil32_def)
qed

lemma length_encode_dynamic_bytes: "length (encode_dynamic_bytes data) = 32 + ceil32 (length data)"
  using ceil32_ge [of "length data"] by (simp add: encode_dynamic_bytes_def padRight_def)

lemma numberToHex_zero: "numberToHex n 0 = replicate n 0"
  by (induction n) (simp_all add: replicate_append_same)

lemma packUserOpV06_eq:
  assumes "digest32 keccak256" "valid_UserOperation userOperation"
  shows "packUserOpV06 keccak256 userOperation = Inr (packedWords keccak256 userOperation)"
  using assms
  unfolding packUserOpV06_def encodeAbiParameters_def encode_tuple_def digest32_def
    valid_UserOperation_def packedWords_def
  by (simp add: Let_def encodeParams_def staticSize_def tailRegion_def)

lemma length_packedWords:
  assumes "digest32 keccak256" "length (sender userOperation) \<le> 20"
  shows "length (packedWords keccak256 userOperation) = 320"
  using assms unfolding packedWords_def digest32_def by (simp add: length_padLeft)

lemma getUserOperationHashV06_eq:
  assumes "digest32 keccak256" "packUserOpV06 keccak256 userOperation = Inr packed"
    "length entryPoint \<le> 20" "chainId < 2 ^ 256"
  shows "getUserOperationHashV06 keccak256 chainId userOperation entryPoint =
    Inr (keccak256 (keccak256 packed @ padLeft 32 entryPoint @ numberToHex 32 chainId))"
  using assms
  unfolding getUserOperationHashV06_def encodeAbiParameters_def encode_tuple_def digest32_def
  by (simp add: encodeParams_def staticSize_def tailRegion_def)

lemma packUserOpV06_cong:
  assumes "sender a = sender b" "nonce a = nonce b"
    "keccak256 (initCode a) = keccak256 (initCode b)"
    "keccak256 (callData a) = keccak256 (callData b)"
    "callGasLimit a = callGasLimit b" "verificationGasLimit a = verificationGasLimit b"
    "preVerificationGas a = preVerificationGas b" "maxFeePerGas a = maxFeePerGas b"
    "maxPriorityFeePerGas a = maxPriorityFeePerGas b"
    "keccak256 (paymasterAndData a) = keccak256 (paymasterAndData b)"
  shows "packUserOpV06 keccak256 a = packUserOpV06 keccak256 b"
  unfolding packUserOpV06_def by (simp only: assms)



lemma digest32_sample_keccak256: "digest32 sample_keccak256"
  by (simp add: digest32_def sample_keccak256_def)

lemma valid_sample_userOperation: "valid_UserOperation sample_userOperation"
  by (simp add: valid_UserOperation_def sample_userOperation_def)

section \<open>The packed tuple\<close>

text \<open>
  Claim C2. For an operation that meets the data model's invariant, and a hash primitive
  with 32-byte digests, \<open>packUserOpV06\<close> returns exactly 320 bytes: ten 32-byte words in
  declaration order, namely the sender left-padded with twelve zero bytes, the nonce
  big-endian, the hashes of \<open>initCode\<close> and \<open>callData\<close>, the five gas and fee integers
  big-endian, and the hash of \<open>paymasterAndData\<close>. No offset word occurs and the
  signature is not part of the result.
\<close>

theorem packUserOpV06_layout:
  assumes "digest32 keccak256" and "valid_UserOperation userOperation"
  shows "packUserOpV06 keccak256 userOperation =
      Inr (padLeft 32 (sender userOperation) @
           numberToHex 32 (nonce userOperation) @
           keccak256 (initCode userOperation) @
           keccak256 (callData userOperation) @
           numberToHex 32 (callGasLimit userOperation) @
           numberToHex 32 (verificationGasLimit userOperation) @
           numberToHex 32 (preVerificationGas userOperation) @
           numberToHex 32 (maxFeePerGas userOperation) @
           numberToHex 32 (maxPriorityFeePerGas userOperation) @
           keccak256 (paymasterAndData userOperation)) \<and>
    length (projr (packUserOpV06 keccak256 userOperation)) = 320 \<and>
    length (padLeft 32 (sender userOperation)) = 32 \<and>
    padLeft 32 (sender userOperation) = replicate 12 0 @ sender userOperation \<and>
    length (keccak256 (initCode userOperation)) = 32 \<and>
    length (keccak256 (callData userOperation)) = 32 \<and>
    length (keccak256 (paymasterAndData userOperation)) = 32 \<and>
    hexToNumber (numberToHex 32 (nonce userOperation)) = nonce userOperation \<and>
    hexToNumber (numberToHex 32 (callGasLimit userOperation)) = callGasLimit userOperation \<and>
    hexToNumber (numberToHex 32 (verificationGasLimit userOperation)) =
      verificationGasLimit userOperation \<and>
    hexToNumber (numberToHex 32 (preVerificationGas userOperation)) =
      preVerificationGas userOperation \<and>
    hexToNumber (numberToHex 32 (maxFeePerGas userOperation)) = maxFeePerGas userOperation \<and>
    hexToNumber (numberToHex 32 (maxPriorityFeePerGas userOperation)) =
      maxPriorityFeePerGas userOperation"
proof -
  have p: "packUserOpV06 keccak256 userOperation = Inr (packedWords keccak256 userOperation)"
    using assms by (rule packUserOpV06_eq)
  have l: "length (packedWords keccak256 userOperation) = 320"
    using assms by (simp add: length_packedWords valid_UserOperation_def)
  have s: "length (sender userOperation) = 20"
    using assms(2) by (simp add: valid_UserOperation_def)
  have n: "hexToNumber (numberToHex 32 v) = v" if "v < 2 ^ 256" for v
    using that by (simp add: hexToNumber_numberToHex)
  have d: "length (keccak256 bs) = 32" for bs
    using assms(1) by (simp add: digest32_def)
  have "packUserOpV06 keccak256 userOperation =
      Inr (padLeft 32 (sender userOperation) @
           numberToHex 32 (nonce userOperation) @
           keccak256 (initCode userOperation) @
           keccak256 (callData userOperation) @
           numberToHex 32 (callGasLimit userOperation) @
           numberToHex 32 (verificationGasLimit userOperation) @
           numberToHex 32 (preVerificationGas userOperation) @
           numberToHex 32 (maxFeePerGas userOperation) @
           numberToHex 32 (maxPriorityFeePerGas userOperation) @
           keccak256 (paymasterAndData userOperation))"
    using p by (simp add: packedWords_def)
  moreover have "length (projr (packUserOpV06 keccak256 userOperation)) = 320"
    using p l by simp
  moreover have "length (padLeft 32 (sender userOperation)) = 32"
    using s by (simp add: padLeft_def)
  moreover have "padLeft 32 (sender userOperation) = replicate 12 0 @ sender userOperation"
    using s by (simp add: padLeft_def)
  moreover have "hexToNumber (numberToHex 32 (nonce userOperation)) = nonce userOperation"
    using assms(2) by (simp add: n valid_UserOperation_def)
  moreover have "hexToNumber (numberToHex 32 (callGasLimit userOperation)) =
      callGasLimit userOperation"
    using assms(2) by (simp add: n valid_UserOperation_def)
  moreover have "hexToNumber (numberToHex 32 (verificationGasLimit userOperation)) =
      verificationGasLimit userOperation"
    using assms(2) by (simp add: n valid_UserOperation_def)
  moreover have "hexToNumber (numberToHex 32 (preVerificationGas userOperation)) =
      preVerificationGas userOperation"
    using assms(2) by (simp add: n valid_UserOperation_def)
  moreover have "hexToNumber (numberToHex 32 (maxFeePerGas userOperation)) =
      maxFeePerGas userOperation"
    using assms(2) by (simp add: n valid_UserOperation_def)
  moreover have "hexToNumber (numberToHex 32 (maxPriorityFeePerGas userOperation)) =
      maxPriorityFeePerGas userOperation"
    using assms(2) by (simp add: n valid_UserOperation_def)
  ultimately show ?thesis
    using d by (intro conjI)
qed

lemma numberToHex_numeral:
  "numberToHex (numeral k) v = numberToHex (pred_numeral k) (v div 256) @ [of_nat (v mod 256)]"
proof -
  have "numberToHex (numeral k) v = numberToHex (Suc (pred_numeral k)) v"
    by (simp only: numeral_eq_Suc [of k, symmetric])
  then show ?thesis by (simp only: numberToHex.simps)
qed

lemma replicate_numeral: "replicate (numeral k) x = x # replicate (pred_numeral k) x"
  by (simp add: numeral_eq_Suc)

lemma sample_packed:
  "padLeft 32 (sender sample_userOperation) @
     numberToHex 32 (nonce sample_userOperation) @
     sample_keccak256 (initCode sample_userOperation) @
     sample_keccak256 (callData sample_userOperation) @
     numberToHex 32 (callGasLimit sample_userOperation) @
     numberToHex 32 (verificationGasLimit sample_userOperation) @
     numberToHex 32 (preVerificationGas sample_userOperation) @
     numberToHex 32 (maxFeePerGas sample_userOperation) @
     numberToHex 32 (maxPriorityFeePerGas sample_userOperation) @
     sample_keccak256 (paymasterAndData sample_userOperation) =
   replicate 31 0 @ [1] @ replicate 32 0 @ replicate 32 4 @ replicate 32 1 @
     replicate 29 0 @ [5, 87, 48] @ replicate 29 0 @ [8, 100, 112] @
     replicate 29 0 @ [3, 208, 144] @ replicate 28 0 @ [59, 154, 202, 0] @
     replicate 28 0 @ [8, 240, 209, 128] @ replicate 32 0"
  unfolding sample_keccak256_def sample_userOperation_def padLeft_def
  by (simp add: numberToHex_numeral replicate_numeral)

theorem packUserOpV06_layout_witness:
  "digest32 sample_keccak256 \<and> valid_UserOperation sample_userOperation \<and>
   packUserOpV06 sample_keccak256 sample_userOperation =
     Inr (replicate 31 0 @ [1] @ replicate 32 0 @ replicate 32 4 @ replicate 32 1 @
          replicate 29 0 @ [5, 87, 48] @ replicate 29 0 @ [8, 100, 112] @
          replicate 29 0 @ [3, 208, 144] @ replicate 28 0 @ [59, 154, 202, 0] @
          replicate 28 0 @ [8, 240, 209, 128] @ replicate 32 0) \<and>
   length (projr (packUserOpV06 sample_keccak256 sample_userOperation)) = 320"
proof -
  note t = packUserOpV06_layout [OF digest32_sample_keccak256 valid_sample_userOperation]
  have "packUserOpV06 sample_keccak256 sample_userOperation =
     Inr (replicate 31 0 @ [1] @ replicate 32 0 @ replicate 32 4 @ replicate 32 1 @
          replicate 29 0 @ [5, 87, 48] @ replicate 29 0 @ [8, 100, 112] @
          replicate 29 0 @ [3, 208, 144] @ replicate 28 0 @ [59, 154, 202, 0] @
          replicate 28 0 @ [8, 240, 209, 128] @ replicate 32 0)"
    by (simp only: t [THEN conjunct1] sample_packed)
  then show ?thesis
    using digest32_sample_keccak256 valid_sample_userOperation
      t [THEN conjunct2, THEN conjunct1]
    by (intro conjI)
qed

lemma length_sample_entryPoint: "length sample_entryPoint = 20"
  by (simp add: sample_entryPoint_def)

section \<open>The signing digest\<close>

text \<open>
  Claim C1. For an operation that meets the data model's invariant, a 20-byte entry-point
  address, a chain id below \<open>2^256\<close> and a hash primitive with 32-byte digests,
  \<open>getUserOperationHashV06\<close> returns the hash of a 96-byte string: the 32-byte hash of
  the packed tuple, then the entry-point address left-padded with twelve zero bytes,
  then the chain id as a 32-byte big-endian unsigned integer.
\<close>

theorem getUserOperationHashV06_digest:
  assumes "digest32 keccak256" and "valid_UserOperation userOperation"
    and "length entryPoint = 20" and "chainId < 2 ^ 256"
  shows "\<exists>packed.
    packUserOpV06 keccak256 userOperation = Inr packed \<and>
    getUserOperationHashV06 keccak256 chainId userOperation entryPoint =
      Inr (keccak256 (keccak256 packed @ (replicate 12 0 @ entryPoint) @ numberToHex 32 chainId)) \<and>
    length (keccak256 packed @ (replicate 12 0 @ entryPoint) @ numberToHex 32 chainId) = 96 \<and>
    length (keccak256 packed) = 32 \<and>
    length (replicate 12 (0 :: byte) @ entryPoint) = 32 \<and>
    length (numberToHex 32 chainId) = 32 \<and>
    hexToNumber (numberToHex 32 chainId) = chainId"
proof -
  have p: "packUserOpV06 keccak256 userOperation = Inr (packedWords keccak256 userOperation)"
    using assms(1,2) by (rule packUserOpV06_eq)
  have pad: "padLeft 32 entryPoint = replicate 12 0 @ entryPoint"
    using assms(3) by (simp add: padLeft_def)
  have h: "getUserOperationHashV06 keccak256 chainId userOperation entryPoint =
      Inr (keccak256 (keccak256 (packedWords keccak256 userOperation) @
        (replicate 12 0 @ entryPoint) @ numberToHex 32 chainId))"
    using getUserOperationHashV06_eq [OF assms(1) p, of entryPoint chainId] assms(3,4)
    by (simp only: pad)
  have d: "length (keccak256 bs) = 32" for bs
    using assms(1) by (simp add: digest32_def)
  have n: "hexToNumber (numberToHex 32 chainId) = chainId"
    using assms(4) by (simp add: hexToNumber_numberToHex)
  show ?thesis
    using p h n assms(3) by (intro exI [of _ "packedWords keccak256 userOperation"]) (simp add: d)
qed

theorem getUserOperationHashV06_digest_witness:
  "digest32 sample_keccak256 \<and> valid_UserOperation sample_userOperation \<and>
   length sample_entryPoint = 20 \<and> (1 :: nat) < 2 ^ 256 \<and>
   (\<exists>packed.
     packUserOpV06 sample_keccak256 sample_userOperation = Inr packed \<and>
     getUserOperationHashV06 sample_keccak256 1 sample_userOperation sample_entryPoint =
       Inr (sample_keccak256
         (sample_keccak256 packed @ (replicate 12 0 @ sample_entryPoint) @ numberToHex 32 1)) \<and>
     length (sample_keccak256 packed @ (replicate 12 0 @ sample_entryPoint) @ numberToHex 32 1)
       = 96) \<and>
   getUserOperationHashV06 sample_keccak256 1 sample_userOperation sample_entryPoint =
     Inr (replicate 32 96)"
proof -
  have c: "(1 :: nat) < 2 ^ 256" by simp
  note t = getUserOperationHashV06_digest [OF digest32_sample_keccak256
      valid_sample_userOperation length_sample_entryPoint c]
  from t obtain packed where
    1: "packUserOpV06 sample_keccak256 sample_userOperation = Inr packed" and
    2: "getUserOperationHashV06 sample_keccak256 1 sample_userOperation sample_entryPoint =
       Inr (sample_keccak256
         (sample_keccak256 packed @ (replicate 12 0 @ sample_entryPoint) @ numberToHex 32 1))" and
    3: "length (sample_keccak256 packed @ (replicate 12 0 @ sample_entryPoint) @ numberToHex 32 1)
       = 96"
    by blast
  have 4: "getUserOperationHashV06 sample_keccak256 1 sample_userOperation sample_entryPoint =
     Inr (replicate 32 96)"
    unfolding 2 using 3 by (simp add: sample_keccak256_def)
  show ?thesis
    using digest32_sample_keccak256 valid_sample_userOperation length_sample_entryPoint c 1 2 3 4
    by blast
qed

text \<open>
  Claim C3. Two operations that agree on every field but the signature have the same
  result of \<open>getUserOperationHashV06\<close>, for every entry point, chain id and hash
  primitive: the signature has no influence on the digest.
\<close>

theorem signature_not_hashed:
  assumes "sender a = sender b" and "nonce a = nonce b" and "initCode a = initCode b"
    and "callData a = callData b" and "callGasLimit a = callGasLimit b"
    and "verificationGasLimit a = verificationGasLimit b"
    and "preVerificationGas a = preVerificationGas b" and "maxFeePerGas a = maxFeePerGas b"
    and "maxPriorityFeePerGas a = maxPriorityFeePerGas b"
    and "paymasterAndData a = paymasterAndData b"
  shows "getUserOperationHashV06 keccak256 chainId a entryPoint =
    getUserOperationHashV06 keccak256 chainId b entryPoint"
proof -
  have "packUserOpV06 keccak256 a = packUserOpV06 keccak256 b"
    by (rule packUserOpV06_cong) (simp_all only: assms)
  then show ?thesis by (simp only: getUserOperationHashV06_def)
qed

text \<open>
  Claim C10. Two operations that agree on the sender, the nonce and the five gas and fee
  fields, and whose \<open>initCode\<close>, \<open>callData\<close> and \<open>paymasterAndData\<close> have pairwise equal
  hashes, have the same result of \<open>getUserOperationHashV06\<close>, whether or not the byte
  strings themselves are equal: the digest depends on a dynamic field through its hash
  only.
\<close>

theorem digest_through_hashes_only:
  assumes "sender a = sender b" and "nonce a = nonce b"
    and "callGasLimit a = callGasLimit b"
    and "verificationGasLimit a = verificationGasLimit b"
    and "preVerificationGas a = preVerificationGas b" and "maxFeePerGas a = maxFeePerGas b"
    and "maxPriorityFeePerGas a = maxPriorityFeePerGas b"
    and "keccak256 (initCode a) = keccak256 (initCode b)"
    and "keccak256 (callData a) = keccak256 (callData b)"
    and "keccak256 (paymasterAndData a) = keccak256 (paymasterAndData b)"
  shows "getUserOperationHashV06 keccak256 chainId a entryPoint =
    getUserOperationHashV06 keccak256 chainId b entryPoint"
proof -
  have "packUserOpV06 keccak256 a = packUserOpV06 keccak256 b"
    by (rule packUserOpV06_cong) (simp_all only: assms)
  then show ?thesis by (simp only: getUserOperationHashV06_def)
qed

theorem signature_not_hashed_witness:
  "signature sample_userOperation \<noteq> signature (sample_userOperation\<lparr>signature := []\<rparr>) \<and>
   getUserOperationHashV06 sample_keccak256 1 sample_userOperation sample_entryPoint =
   getUserOperationHashV06 sample_keccak256 1 (sample_userOperation\<lparr>signature := []\<rparr>)
     sample_entryPoint"
proof -
  have "signature sample_userOperation \<noteq> signature (sample_userOperation\<lparr>signature := []\<rparr>)"
    by (simp add: sample_userOperation_def)
  moreover have
    "getUserOperationHashV06 sample_keccak256 1 sample_userOperation sample_entryPoint =
     getUserOperationHashV06 sample_keccak256 1 (sample_userOperation\<lparr>signature := []\<rparr>)
       sample_entryPoint"
    by (rule signature_not_hashed) simp_all
  ultimately show ?thesis by (intro conjI)
qed

theorem digest_through_hashes_only_witness:
  "initCode sample_userOperation \<noteq>
     initCode (sample_userOperation\<lparr>initCode := [1, 2, 3, 4], callData := [9]\<rparr>) \<and>
   callData sample_userOperation \<noteq>
     callData (sample_userOperation\<lparr>initCode := [1, 2, 3, 4], callData := [9]\<rparr>) \<and>
   sample_keccak256 (initCode sample_userOperation) =
     sample_keccak256 (initCode (sample_userOperation\<lparr>initCode := [1, 2, 3, 4], callData := [9]\<rparr>)) \<and>
   sample_keccak256 (callData sample_userOperation) =
     sample_keccak256 (callData (sample_userOperation\<lparr>initCode := [1, 2, 3, 4], callData := [9]\<rparr>)) \<and>
   getUserOperationHashV06 sample_keccak256 1 sample_userOperation sample_entryPoint =
   getUserOperationHashV06 sample_keccak256 1
     (sample_userOperation\<lparr>initCode := [1, 2, 3, 4], callData := [9]\<rparr>) sample_entryPoint"
proof -
  have i: "sample_keccak256 (initCode sample_userOperation) =
      sample_keccak256 (initCode (sample_userOperation\<lparr>initCode := [1, 2, 3, 4], callData := [9]\<rparr>))"
    by (simp add: sample_userOperation_def sample_keccak256_def)
  have c: "sample_keccak256 (callData sample_userOperation) =
      sample_keccak256 (callData (sample_userOperation\<lparr>initCode := [1, 2, 3, 4], callData := [9]\<rparr>))"
    by (simp add: sample_userOperation_def sample_keccak256_def)
  have "initCode sample_userOperation \<noteq>
     initCode (sample_userOperation\<lparr>initCode := [1, 2, 3, 4], callData := [9]\<rparr>)"
    by (simp add: sample_userOperation_def)
  moreover have "callData sample_userOperation \<noteq>
     callData (sample_userOperation\<lparr>initCode := [1, 2, 3, 4], callData := [9]\<rparr>)"
    by (simp add: sample_userOperation_def)
  moreover have
    "getUserOperationHashV06 sample_keccak256 1 sample_userOperation sample_entryPoint =
     getUserOperationHashV06 sample_keccak256 1
       (sample_userOperation\<lparr>initCode := [1, 2, 3, 4], callData := [9]\<rparr>) sample_entryPoint"
    by (rule digest_through_hashes_only) (simp_all add: i c)
  ultimately show ?thesis using i c by (intro conjI)
qed





section \<open>The encoder\<close>

lemma length_encode_static:
  "encode_static t x = Inr w \<Longrightarrow> length w = 32"
  by (cases "(t, x)" rule: encode_static.cases) (auto simp: length_padLeft split: if_splits)

lemma encode_static_out_of_range:
  "encode_static t x = Inl ValueOutOfRange \<longleftrightarrow>
     (\<exists>a. t = Address_t \<and> x = HexV a \<and> 20 < length a) \<or>
     (\<exists>v. t = Uint256_t \<and> x = BigIntV v \<and> 2 ^ 256 - 1 < v)"
  by (cases "(t, x)" rule: encode_static.cases) auto

text \<open>
  Claim C6. \<open>encode_static\<close> returns one 32-byte word for every scalar it accepts: an
  address left-padded with zero bytes to 32 bytes, a uint256 as its 32-byte big-endian
  representation. It fails with \<open>ValueOutOfRange\<close> exactly when a uint256 input exceeds
  \<open>2^256 - 1\<close> or an address input is wider than 20 bytes.
\<close>

theorem encode_static_contract:
  "encode_static Address_t (HexV a) =
     (if 20 < length a then Inl ValueOutOfRange else Inr (replicate (32 - length a) 0 @ a)) \<and>
   encode_static Uint256_t (BigIntV v) =
     (if 2 ^ 256 - 1 < v then Inl ValueOutOfRange else Inr (numberToHex 32 v)) \<and>
   length (numberToHex 32 v) = 32 \<and>
   hexToNumber (numberToHex 32 v) = v mod 2 ^ 256 \<and>
   (case encode_static t x of Inl e \<Rightarrow> True | Inr w \<Rightarrow> length w = 32) \<and>
   (encode_static t x = Inl ValueOutOfRange \<longleftrightarrow>
     (\<exists>a. t = Address_t \<and> x = HexV a \<and> 20 < length a) \<or>
     (\<exists>v. t = Uint256_t \<and> x = BigIntV v \<and> 2 ^ 256 - 1 < v))"
proof -
  have "encode_static Address_t (HexV a) =
     (if 20 < length a then Inl ValueOutOfRange else Inr (replicate (32 - length a) 0 @ a))"
    by (simp add: padLeft_def)
  moreover have "encode_static Uint256_t (BigIntV v) =
     (if 2 ^ 256 - 1 < v then Inl ValueOutOfRange else Inr (numberToHex 32 v))"
    by simp
  moreover have "hexToNumber (numberToHex 32 v) = v mod 2 ^ 256"
    by (simp add: hexToNumber_numberToHex)
  moreover have "case encode_static t x of Inl e \<Rightarrow> True | Inr w \<Rightarrow> length w = 32"
    by (simp add: length_encode_static split: sum.split)
  ultimately show ?thesis
    using encode_static_out_of_range [of t x] length_numberToHex [of 32 v] by (intro conjI)
qed

text \<open>
  Claim C7. For every byte string, the empty one included, the encoding of dynamic bytes
  is the 32-byte big-endian length word followed by the data right-padded with zero
  bytes to the next multiple of 32 bytes; its length is \<open>32 + 32 * ceil (len / 32)\<close>, and
  the encoding of the empty string is the zero length word alone.
\<close>

theorem encode_dynamic_bytes_layout:
  "encode_dynamic_bytes data =
     numberToHex 32 (length data) @ data @ replicate (ceil32 (length data) - length data) 0 \<and>
   hexToNumber (take 32 (encode_dynamic_bytes data)) = length data mod 2 ^ 256 \<and>
   ceil32 (length data) = 32 * nat \<lceil>real (length data) / 32\<rceil> \<and>
   length data \<le> ceil32 (length data) \<and> ceil32 (length data) < length data + 32 \<and>
   length (encode_dynamic_bytes data) = 32 + 32 * nat \<lceil>real (length data) / 32\<rceil> \<and>
   encode_dynamic_bytes [] = replicate 32 0 \<and>
   prepareParam Bytes_t (HexV data) = Inr (True, encode_dynamic_bytes data)"
proof -
  have "encode_dynamic_bytes data =
     numberToHex 32 (length data) @ data @ replicate (ceil32 (length data) - length data) 0"
    by (simp add: encode_dynamic_bytes_def padRight_def)
  moreover have "hexToNumber (take 32 (encode_dynamic_bytes data)) = length data mod 2 ^ 256"
    by (simp add: encode_dynamic_bytes_def hexToNumber_numberToHex)
  moreover have "ceil32 (length data) < length data + 32"
    by (simp add: ceil32_def)
  moreover have "length (encode_dynamic_bytes data) = 32 + 32 * nat \<lceil>real (length data) / 32\<rceil>"
    by (simp only: length_encode_dynamic_bytes ceil32_ceiling)
  moreover have "encode_dynamic_bytes [] = replicate 32 0"
    by (simp add: encode_dynamic_bytes_def padRight_def ceil32_def numberToHex_zero)
  moreover have "prepareParam Bytes_t (HexV data) = Inr (True, encode_dynamic_bytes data)"
    by simp
  ultimately show ?thesis
    using ceil32_ceiling [of "length data"] ceil32_ge [of "length data"] by (intro conjI)
qed

text \<open>
  Claim C8. For every tuple layout, the encoding of the empty array of tuples is the
  32-byte zero count word and nothing else.
\<close>

theorem encode_array_of_tuples_empty:
  "encode_array_of_tuples layout [] = Inr (replicate 32 0) \<and>
   prepareParam (TupleArray_t layout) (ArrayV []) = Inr (True, replicate 32 0)"
  by (simp add: encode_array_of_tuples_def encodeParams_def staticSize_def tailRegion_def
      numberToHex_zero)


lemma encodeFunctionData_handleOps_eq:
  "encodeFunctionData keccak256 abi [ArrayV items, HexV beneficiary] =
     (case encode_array_of_tuples UserOperation_components items of
        Inl e \<Rightarrow> Inl e
      | Inr arr \<Rightarrow>
          if 20 < length beneficiary then Inl ValueOutOfRange
          else Inr (toFunctionSelector keccak256 (hd abi) @
                    numberToHex 32 64 @ padLeft 32 beneficiary @ arr))"
  by (cases "prepareItems UserOperation_components items")
    (simp_all add: encodeFunctionData_def abi_def encode_function_call_def
      encodeAbiParameters_def encode_tuple_def encode_array_of_tuples_def
      encodeParams_def staticSize_def tailRegion_def length_padLeft)











lemma length_sample_beneficiary: "length sample_beneficiary = 20"
  by (simp add: sample_beneficiary_def)

lemma prepare_UserOperation_value:
  assumes "valid_UserOperation userOperation"
  shows "\<exists>enc.
    prepareParam (Tuple_t UserOperation_components) (UserOperation_value userOperation) =
      Inr (True, enc) \<and>
    length enc = 32 * 11 +
      (32 + ceil32 (length (initCode userOperation))) +
      (32 + ceil32 (length (callData userOperation))) +
      (32 + ceil32 (length (paymasterAndData userOperation))) +
      (32 + ceil32 (length (signature userOperation)))"
  using assms
  by (simp add: UserOperation_components_def UserOperation_value_def valid_UserOperation_def
      encodeParams_def staticSize_def tailRegion_def length_padLeft length_encode_dynamic_bytes)

lemma encode_array_of_tuples_single:
  assumes "prepareParam (Tuple_t layout) v = Inr (True, enc)"
  shows "encode_array_of_tuples layout [v] = Inr (numberToHex 32 1 @ numberToHex 32 32 @ enc)"
  using assms
  by (simp add: encode_array_of_tuples_def encodeParams_def staticSize_def tailRegion_def)

lemma length_handleOpsCalldata_single:
  assumes "digest32 keccak256" and "valid_UserOperation userOperation"
    and "length beneficiary \<le> 20"
  shows "map_sum id length (handleOpsCalldata keccak256 [userOperation] beneficiary) =
    Inr (4 + 32 * 2 + 32 + 32 + 32 * 11 +
      (32 + ceil32 (length (initCode userOperation))) +
      (32 + ceil32 (length (callData userOperation))) +
      (32 + ceil32 (length (paymasterAndData userOperation))) +
      (32 + ceil32 (length (signature userOperation))))"
proof -
  obtain enc where
    e: "prepareParam (Tuple_t UserOperation_components) (UserOperation_value userOperation) =
      Inr (True, enc)" and
    l: "length enc = 32 * 11 +
      (32 + ceil32 (length (initCode userOperation))) +
      (32 + ceil32 (length (callData userOperation))) +
      (32 + ceil32 (length (paymasterAndData userOperation))) +
      (32 + ceil32 (length (signature userOperation)))"
    using prepare_UserOperation_value [OF assms(2)] by blast
  have s: "length (toFunctionSelector keccak256 (hd abi)) = 4"
    using assms(1) by (simp add: toFunctionSelector_def digest32_def)
  have "handleOpsCalldata keccak256 [userOperation] beneficiary =
      Inr (toFunctionSelector keccak256 (hd abi) @ numberToHex 32 64 @
           padLeft 32 beneficiary @ numberToHex 32 1 @ numberToHex 32 32 @ enc)"
    using assms(3)
    by (simp add: handleOpsCalldata_def encodeFunctionData_handleOps_eq
        encode_array_of_tuples_single [OF e])
  then show ?thesis
    using s l assms(3) by (simp add: length_padLeft)
qed



text \<open>
  Claim C5, as amended. The call data of \<open>handleOps\<close> for one operation with non-empty
  \<open>initCode\<close> and \<open>callData\<close> and a 65-byte signature has the length 4 (selector) +
  32 * 2 (offset of the array, beneficiary) + 32 (element count) + 32 (offset of the
  element in the array's element region) + 32 * 11 (head of the tuple) + the tails of
  the four dynamic fields, each a length word and the data padded to a multiple of 32
  bytes.
\<close>

theorem handleOpsCalldata_length:
  assumes "digest32 keccak256" and "valid_UserOperation userOperation"
    and "length beneficiary = 20"
    and "initCode userOperation \<noteq> []" and "callData userOperation \<noteq> []"
    and "length (signature userOperation) = 65"
  shows "map_sum id length (handleOpsCalldata keccak256 [userOperation] beneficiary) =
    Inr (4 + 32 * 2 + 32 + 32 + 32 * 11 +
      (32 + ceil32 (length (initCode userOperation))) +
      (32 + ceil32 (length (callData userOperation))) +
      (32 + ceil32 (length (paymasterAndData userOperation))) +
      (32 + 96))"
proof -
  have "ceil32 (length (signature userOperation)) = 96"
    using assms(6) by (simp add: ceil32_def)
  then show ?thesis
    using length_handleOpsCalldata_single [OF assms(1,2), of beneficiary] assms(3) by simp
qed

theorem handleOpsCalldata_length_witness:
  "digest32 sample_keccak256 \<and> valid_UserOperation sample_userOperation \<and>
   length sample_beneficiary = 20 \<and> initCode sample_userOperation \<noteq> [] \<and>
   callData sample_userOperation \<noteq> [] \<and> length (signature sample_userOperation) = 65 \<and>
   map_sum id length
     (handleOpsCalldata sample_keccak256 [sample_userOperation] sample_beneficiary) = Inr 772"
proof -
  have i: "initCode sample_userOperation \<noteq> []" and c: "callData sample_userOperation \<noteq> []"
    and s: "length (signature sample_userOperation) = 65"
    by (simp_all add: sample_userOperation_def)
  note th = handleOpsCalldata_length [OF digest32_sample_keccak256 valid_sample_userOperation
      length_sample_beneficiary i c s]
  have "map_sum id length
     (handleOpsCalldata sample_keccak256 [sample_userOperation] sample_beneficiary) = Inr 772"
    unfolding th by (simp add: sample_userOperation_def ceil32_def)
  then show ?thesis
    using digest32_sample_keccak256 valid_sample_userOperation length_sample_beneficiary i c s
    by (intro conjI)
qed

text \<open>
  Claim C5 as stated fails: its sum leaves out the offset word of the element. For the
  sample operation the call data has 772 bytes, and the sum of the claim is 740.
\<close>

theorem handleOpsCalldata_length_counterexample:
  "initCode sample_userOperation \<noteq> [] \<and> callData sample_userOperation \<noteq> [] \<and>
   length (signature sample_userOperation) = 65 \<and>
   map_sum id length
     (handleOpsCalldata sample_keccak256 [sample_userOperation] sample_beneficiary) = Inr 772 \<and>
   4 + 32 * 2 + 32 + 32 * 11 +
     (32 + ceil32 (length (initCode sample_userOperation))) +
     (32 + ceil32 (length (callData sample_userOperation))) +
     (32 + ceil32 (length (paymasterAndData sample_userOperation))) +
     (32 + ceil32 (length (signature sample_userOperation))) = 740"
proof -
  have l: "length sample_beneficiary \<le> 20"
    by (simp add: sample_beneficiary_def)
  have "map_sum id length
     (handleOpsCalldata sample_keccak256 [sample_userOperation] sample_beneficiary) = Inr 772"
    unfolding length_handleOpsCalldata_single [OF digest32_sample_keccak256
        valid_sample_userOperation l]
    by (simp add: sample_userOperation_def ceil32_def)
  moreover have "4 + 32 * 2 + 32 + 32 * 11 +
     (32 + ceil32 (length (initCode sample_userOperation))) +
     (32 + ceil32 (length (callData sample_userOperation))) +
     (32 + ceil32 (length (paymasterAndData sample_userOperation))) +
     (32 + ceil32 (length (signature sample_userOperation))) = 740"
    by (simp add: sample_userOperation_def ceil32_def)
  ultimately show ?thesis by (simp add: sample_userOperation_def)
qed

theorem encode_static_contract_witness:
  "encode_static Address_t (HexV sample_beneficiary) = Inr (replicate 12 0 @ sample_beneficiary) \<and>
   encode_static Address_t (HexV (replicate 21 0)) = Inl ValueOutOfRange \<and>
   encode_static Uint256_t (BigIntV (2 ^ 256 - 1)) = Inr (numberToHex 32 (2 ^ 256 - 1)) \<and>
   encode_static Uint256_t (BigIntV (2 ^ 256)) = Inl ValueOutOfRange"
  using encode_static_contract [of sample_beneficiary "2 ^ 256 - 1"]
    encode_static_contract [of "replicate 21 0" "2 ^ 256"]
  by (simp add: sample_beneficiary_def)

end
